theory Spec2Isabelle
  imports
    Complex_Main
    "HOL-Library.AList"
    "HOL-Library.Char_ord"
    "HOL-Library.List_Lexorder"
    "HOL-Library.Product_Lexorder"
    "HOL-Library.Multiset"
    "HOL-Library.Sublist"
begin

section \<open>Data frames\<close>

text \<open>
  The dashboard of \<^verbatim>\<open>app.py\<close> works on one pandas \<^verbatim>\<open>DataFrame\<close>. A cell of the
  uploaded sheet is a text, a whole number, a date-time (microseconds since the epoch, the
  resolution of Python's \<^verbatim>\<open>datetime\<close>) or missing (\<^verbatim>\<open>NaN\<close>/\<^verbatim>\<open>NaT\<close>). Texts are
  byte strings in UTF-8: their lexicographic order is the order of Python's \<^verbatim>\<open>str\<close>
  (by code point).
\<close>

datatype cell = Str string | Num int | Stamp int | NaN

text \<open>
  A frame is column-major, as in pandas: the length of its index and the labelled columns,
  in order. The frame is polymorphic in the label: the sheet's columns are labelled by
  texts, the columns of the indicator table \<^verbatim>\<open>mat_df\<close> by emoji values.
\<close>

record 'k dataframe =
  nrows :: nat
  cols :: "('k \<times> cell list) list"

text \<open>pandas keeps every column as long as the index, and \<^verbatim>\<open>read_excel\<close> labels distinct.\<close>

definition wf_frame :: "'k dataframe \<Rightarrow> bool" where
  "wf_frame df = (list_all (\<lambda>p. length (snd p) = nrows df) (cols df) \<and> distinct (map fst (cols df)))"

text \<open>\<^verbatim>\<open>pd.DataFrame()\<close>\<close>

definition empty_frame :: "'k dataframe" where
  "empty_frame = \<lparr>nrows = 0, cols = []\<rparr>"

text \<open>\<^verbatim>\<open>df.empty\<close>: some axis has length 0.\<close>

definition is_empty :: "'k dataframe \<Rightarrow> bool" where
  "is_empty df = (nrows df = 0 \<or> cols df = [])"

text \<open>\<^verbatim>\<open>df[c]\<close>, and \<^verbatim>\<open>c in df.columns\<close>\<close>

definition column :: "'k \<Rightarrow> 'k dataframe \<Rightarrow> cell list option" where
  "column c df = map_of (cols df) c"

definition has_col :: "'k \<Rightarrow> 'k dataframe \<Rightarrow> bool" where
  "has_col c df = (column c df \<noteq> None)"

text \<open>\<^verbatim>\<open>df[c] = vs\<close>: an existing column is replaced in place, a new one is appended last.\<close>

definition set_col :: "'k \<Rightarrow> cell list \<Rightarrow> 'k dataframe \<Rightarrow> 'k dataframe" where
  "set_col c vs df = df\<lparr>cols := AList.update c vs (cols df)\<rparr>"

text \<open>\<^verbatim>\<open>df[mask]\<close> with a boolean mask: the rows whose mask entry is true, in order.\<close>

definition keep :: "bool list \<Rightarrow> 'a list \<Rightarrow> 'a list" where
  "keep bs xs = map fst (filter snd (zip xs bs))"

definition select_rows :: "bool list \<Rightarrow> 'k dataframe \<Rightarrow> 'k dataframe" where
  "select_rows bs df =
     \<lparr>nrows = length (keep bs [0..<nrows df]),
      cols = map (\<lambda>p. (fst p, keep bs (snd p))) (cols df)\<rparr>"

text \<open>
  The elementwise \<^verbatim>\<open>series == value\<close>: a missing cell equals nothing, itself included.
\<close>

definition eq_cell :: "cell \<Rightarrow> cell \<Rightarrow> bool" where
  "eq_cell v s = (v \<noteq> NaN \<and> v = s)"

section \<open>The random source\<close>

text \<open>
  \<^verbatim>\<open>np.random\<close> is a global generator. It is modelled as an explicit stream of raw draws;
  each call consumes draws from the front and the rest is passed on.
  \<^verbatim>\<open>np.random.randint(low, high)\<close> takes \<^verbatim>\<open>high\<close> exclusive: it reduces a raw draw into
  the half-open range from \<^verbatim>\<open>low\<close> to \<^verbatim>\<open>high - 1\<close>. (numpy raises when
  \<^verbatim>\<open>high <= low\<close>; every call of \<^verbatim>\<open>app.py\<close> passes constants with \<^verbatim>\<open>low < high\<close>.)
\<close>

type_synonym rng = "nat \<Rightarrow> nat"

definition advance :: "nat \<Rightarrow> rng \<Rightarrow> rng" where
  "advance n g = (\<lambda>i. g (i + n))"

definition randint :: "int \<Rightarrow> int \<Rightarrow> nat \<Rightarrow> int" where
  "randint low high r = low + int (r mod nat (high - low))"

text \<open>\<^verbatim>\<open>np.random.randint(low, high, size=n)\<close>\<close>

definition randint_size :: "int \<Rightarrow> int \<Rightarrow> nat \<Rightarrow> rng \<Rightarrow> int list" where
  "randint_size low high n g = map (\<lambda>i. randint low high (g i)) [0..<n]"

text \<open>\<^verbatim>\<open>np.random.choice(xs, size=n)\<close>: \<^verbatim>\<open>n\<close> draws from \<^verbatim>\<open>xs\<close>, with replacement.\<close>

definition choice :: "'a list \<Rightarrow> nat \<Rightarrow> rng \<Rightarrow> 'a list" where
  "choice xs n g = map (\<lambda>i. xs ! (g i mod length xs)) [0..<n]"

section \<open>The normalizer: \<^verbatim>\<open>process_data\<close>\<close>

datatype load_error = Unreadable | Unparseable_Date

definition authors :: "string list" where
  "authors = [''Ananya_Rao'', ''Rohan_M'', ''Priya_Singh'', ''Arjun_K'',
              ''Vikram_P'', ''Meera_N'', ''Suresh_Eats'']"

text \<open>The placeholder emoji U+1F642, in UTF-8.\<close>

definition slight_smile :: string where
  "slight_smile = [CHR 0xF0, CHR 0x9F, CHR 0x99, CHR 0x82]"

text \<open>\<^verbatim>\<open>timedelta(days=d, hours=h)\<close>, in microseconds.\<close>

definition timedelta :: "int \<Rightarrow> int \<Rightarrow> int" where
  "timedelta days hours = days * 86400000000 + hours * 3600000000"

text \<open>Step 1: \<^verbatim>\<open>Tweet_ID\<close>, when absent, is \<^verbatim>\<open>randint(1000000, 9999999, size=len(df))\<close>.\<close>

definition fill_tweet_id :: "rng \<Rightarrow> string dataframe \<Rightarrow> string dataframe \<times> rng" where
  "fill_tweet_id g df =
     (if \<not> has_col ''Tweet_ID'' df
      then (set_col ''Tweet_ID'' (map Num (randint_size 1000000 9999999 (nrows df) g)) df,
            advance (nrows df) g)
      else (df, g))"

text \<open>Step 2: \<^verbatim>\<open>Author_ID\<close>, when absent, is drawn from the seven labels.\<close>

definition fill_author_id :: "rng \<Rightarrow> string dataframe \<Rightarrow> string dataframe \<times> rng" where
  "fill_author_id g df =
     (if \<not> has_col ''Author_ID'' df
      then (set_col ''Author_ID'' (map Str (choice authors (nrows df) g)) df,
            advance (nrows df) g)
      else (df, g))"

text \<open>
  Step 3, no \<^verbatim>\<open>Date\<close> column: \<^verbatim>\<open>start_date = now - 30 days\<close>, and each row draws its
  days with \<^verbatim>\<open>randint(0, 30)\<close>, then its hours with \<^verbatim>\<open>randint(0, 23)\<close>.
\<close>

definition synth_date :: "int \<Rightarrow> rng \<Rightarrow> nat \<Rightarrow> int" where
  "synth_date now g i =
     (let start_date = now - timedelta 30 0
      in start_date + timedelta (randint 0 30 (g (2 * i))) (randint 0 23 (g (2 * i + 1))))"

definition synth_dates :: "int \<Rightarrow> nat \<Rightarrow> rng \<Rightarrow> cell list" where
  "synth_dates now n g = map (\<lambda>i. Stamp (synth_date now g i)) [0..<n]"

text \<open>
  Step 3, with a \<^verbatim>\<open>Date\<close> column: \<^verbatim>\<open>pd.to_datetime\<close>. A date-time stays what it is and a
  missing cell stays missing (\<^verbatim>\<open>NaT\<close>); a text or a number goes through the date parser
  of pandas, which is a parameter here: \<open>parse c = None\<close> when \<open>c\<close> does not parse,
  and then the whole call raises.
\<close>

definition to_datetime_cell :: "(cell \<Rightarrow> int option) \<Rightarrow> cell \<Rightarrow> cell option" where
  "to_datetime_cell parse c =
     (case c of Stamp t \<Rightarrow> Some (Stamp t) | NaN \<Rightarrow> Some NaN | _ \<Rightarrow> map_option Stamp (parse c))"

definition to_datetime :: "(cell \<Rightarrow> int option) \<Rightarrow> cell list \<Rightarrow> load_error + cell list" where
  "to_datetime parse vs =
     (if list_all (\<lambda>c. to_datetime_cell parse c \<noteq> None) vs
      then Inr (map (\<lambda>c. the (to_datetime_cell parse c)) vs)
      else Inl Unparseable_Date)"

definition fill_date ::
  "(cell \<Rightarrow> int option) \<Rightarrow> int \<Rightarrow> rng \<Rightarrow> string dataframe \<Rightarrow> load_error + string dataframe" where
  "fill_date parse now g df =
     (case column ''Date'' df of
        None \<Rightarrow> Inr (set_col ''Date'' (synth_dates now (nrows df) g) df)
      | Some vs \<Rightarrow>
          (case to_datetime parse vs of
             Inl e \<Rightarrow> Inl e
           | Inr ts \<Rightarrow> Inr (set_col ''Date'' ts df)))"

text \<open>Step 4: the text column is an alias of \<^verbatim>\<open>Tweet\<close>, or else the placeholder.\<close>

definition fill_text :: "string dataframe \<Rightarrow> string dataframe" where
  "fill_text df =
     (case (column ''Tweet'' df, column ''Tweet_Text'' df) of
        (Some tw, None) \<Rightarrow> set_col ''Tweet_Text'' tw df
      | (None, None) \<Rightarrow> set_col ''Tweet_Text'' (replicate (nrows df) (Str ''No text available'')) df
      | (_, Some _) \<Rightarrow> df)"

text \<open>Step 5: the emoji column, when absent, is the placeholder in every row.\<close>

definition fill_emoji :: "string dataframe \<Rightarrow> string dataframe" where
  "fill_emoji df =
     (if \<not> has_col ''Emoji'' df
      then set_col ''Emoji'' (replicate (nrows df) (Str slight_smile)) df
      else df)"

text \<open>
  The body of the \<^verbatim>\<open>try\<close>. The upload is what \<^verbatim>\<open>pd.read_excel\<close> makes of the file:
  \<open>None\<close> when it raises.
\<close>

definition process_data_try ::
  "(cell \<Rightarrow> int option) \<Rightarrow> int \<Rightarrow> rng \<Rightarrow> string dataframe option \<Rightarrow> load_error + string dataframe" where
  "process_data_try parse now g upload =
     (case upload of
        None \<Rightarrow> Inl Unreadable
      | Some df \<Rightarrow>
          (let (df1, g1) = fill_tweet_id g df;
               (df2, g2) = fill_author_id g1 df1
           in case fill_date parse now g2 df2 of
                Inl e \<Rightarrow> Inl e
              | Inr df3 \<Rightarrow> Inr (fill_emoji (fill_text df3))))"

text \<open>
  \<^verbatim>\<open>process_data\<close>: on any exception the message is shown with \<^verbatim>\<open>st.error\<close> and an empty
  frame is returned. The result is the reported error, if any, and the frame.
\<close>

definition process_data ::
  "(cell \<Rightarrow> int option) \<Rightarrow> int \<Rightarrow> rng \<Rightarrow> string dataframe option \<Rightarrow> load_error option \<times> string dataframe" where
  "process_data parse now g upload =
     (case process_data_try parse now g upload of
        Inl e \<Rightarrow> (Some e, empty_frame)
      | Inr df \<Rightarrow> (None, df))"

section \<open>The aggregator\<close>

subsection \<open>Filters\<close>

text \<open>
  \<^verbatim>\<open>if sel != "All" and c in df_filt.columns: df_filt = df_filt[df_filt[c] == sel]\<close>
\<close>

definition filter_by :: "string \<Rightarrow> cell \<Rightarrow> string dataframe \<Rightarrow> string dataframe" where
  "filter_by c sel df =
     (case column c df of
        Some vs \<Rightarrow> if sel \<noteq> Str ''All'' then select_rows (map (\<lambda>v. eq_cell v sel) vs) df else df
      | None \<Rightarrow> df)"

definition apply_filters :: "cell \<Rightarrow> cell \<Rightarrow> string dataframe \<Rightarrow> string dataframe" where
  "apply_filters sel_festival sel_sentiment df =
     filter_by ''Sentiment'' sel_sentiment (filter_by ''Festival'' sel_festival df)"

text \<open>
  The filter as the specification words it: row \<open>i\<close> matches the selection \<open>sel\<close> on
  column \<open>c\<close> when the selection is "All", or the column is absent, or the cell of the row
  equals the selection.
\<close>

definition matches :: "string \<Rightarrow> cell \<Rightarrow> string dataframe \<Rightarrow> nat \<Rightarrow> bool" where
  "matches c sel df i =
     (sel = Str ''All'' \<or> (case column c df of None \<Rightarrow> True | Some vs \<Rightarrow> eq_cell (vs ! i) sel))"

subsection \<open>Frequencies of a column\<close>

text \<open>
  \<^verbatim>\<open>value_counts\<close>, \<^verbatim>\<open>mode\<close> and \<^verbatim>\<open>nunique\<close> leave missing cells out. \<open>unique\<close> lists
  the distinct values in the order of their first appearance.
\<close>

definition dropna :: "cell list \<Rightarrow> cell list" where
  "dropna vs = filter (\<lambda>v. v \<noteq> NaN) vs"

fun unique :: "'a list \<Rightarrow> 'a list" where
  "unique [] = []"
| "unique (x # xs) = x # unique (filter (\<lambda>y. y \<noteq> x) xs)"

definition nunique :: "cell list \<Rightarrow> nat" where
  "nunique vs = length (unique (dropna vs))"

text \<open>
  \<^verbatim>\<open>Series.value_counts()\<close>: one entry per distinct value with its count, sorted by
  descending count; values of equal count stay in the order of their first appearance.
\<close>

definition by_count_desc :: "(cell \<times> nat) list \<Rightarrow> (cell \<times> nat) list" where
  "by_count_desc ps = sort_key (\<lambda>p. - int (snd p)) ps"

definition value_counts :: "cell list \<Rightarrow> (cell \<times> nat) list" where
  "value_counts vs =
     (let xs = dropna vs in by_count_desc (map (\<lambda>v. (v, count_list xs v)) (unique xs)))"

text \<open>
  \<^verbatim>\<open>Series.nlargest(n)\<close> with the default \<^verbatim>\<open>keep='first'\<close>: the \<open>n\<close> largest entries in
  descending order, equal ones in the order they have in the series.
\<close>

definition nlargest :: "nat \<Rightarrow> (cell \<times> nat) list \<Rightarrow> (cell \<times> nat) list" where
  "nlargest n ps = take n (by_count_desc ps)"

text \<open>
  \<^verbatim>\<open>Series.mode()\<close>: the values of maximal count, which pandas then sorts ascending with
  \<^verbatim>\<open>np.sort\<close>. Values of one kind compare (texts by code point, numbers and date-times
  by value). Values of different kinds do not: \<^verbatim>\<open>np.sort\<close> raises \<^verbatim>\<open>TypeError\<close>, which
  pandas catches with a warning, and the modes stay in the order of first appearance.
\<close>

fun cell_key :: "cell \<Rightarrow> nat \<times> int \<times> string" where
  "cell_key (Str s) = (0, 0, s)"
| "cell_key (Num n) = (1, n, [])"
| "cell_key (Stamp t) = (2, t, [])"
| "cell_key NaN = (3, 0, [])"

definition kind :: "cell \<Rightarrow> nat" where
  "kind v = fst (cell_key v)"

definition comparable :: "cell list \<Rightarrow> bool" where
  "comparable vs = (case vs of [] \<Rightarrow> True | v # ws \<Rightarrow> list_all (\<lambda>w. kind w = kind v) ws)"

definition np_sort :: "cell list \<Rightarrow> cell list" where
  "np_sort vs = (if comparable vs then sort_key cell_key vs else vs)"

definition max_count :: "cell list \<Rightarrow> nat" where
  "max_count xs = foldr max (map (count_list xs) (unique xs)) 0"

definition mode :: "cell list \<Rightarrow> cell list" where
  "mode vs =
     (let xs = dropna vs
      in np_sort (filter (\<lambda>v. count_list xs v = max_count xs) (unique xs)))"


subsection \<open>The derived values\<close>

text \<open>
  \<^verbatim>\<open>top_emotion = "N/A"\<close>, then \<^verbatim>\<open>df_filt['Emotion'].mode()[0]\<close> if the column is
  there and its mode is not empty; the same for \<^verbatim>\<open>top_emoji\<close>.
\<close>

definition top_emotion :: "string dataframe \<Rightarrow> cell" where
  "top_emotion df =
     (case column ''Emotion'' df of
        None \<Rightarrow> Str ''N/A''
      | Some vs \<Rightarrow> (case mode vs of [] \<Rightarrow> Str ''N/A'' | m # _ \<Rightarrow> m))"

definition top_emoji :: "string dataframe \<Rightarrow> cell" where
  "top_emoji df =
     (case column ''Emoji'' df of
        None \<Rightarrow> Str ''N/A''
      | Some vs \<Rightarrow> (case mode vs of [] \<Rightarrow> Str ''N/A'' | m # _ \<Rightarrow> m))"

definition unique_emoji_count :: "string dataframe \<Rightarrow> nat" where
  "unique_emoji_count df = (case column ''Emoji'' df of None \<Rightarrow> 0 | Some vs \<Rightarrow> nunique vs)"

text \<open>
  \<^verbatim>\<open>emoji_counts = df_filt['Emoji'].value_counts().nlargest(top_n)\<close>; without the column
  there is a warning and no ranking.
\<close>

definition emoji_counts :: "nat \<Rightarrow> string dataframe \<Rightarrow> (cell \<times> nat) list option" where
  "emoji_counts top_n df =
     (case column ''Emoji'' df of
        None \<Rightarrow> None
      | Some vs \<Rightarrow> Some (nlargest top_n (value_counts vs)))"

text \<open>
  The gauge: \<^verbatim>\<open>if 'Sentiment' in df_filt.columns and len(df_filt) > 0\<close>, then
  \<^verbatim>\<open>positive_rate = (positive_count / total) * 100\<close>; otherwise a notice is shown and
  no rate is computed.

  The two operations are float64 operations: each returns its exact result rounded to
  the nearest float64. The rounding \<open>rnd\<close> is a parameter of the model (the counts
  themselves, below \<open>2^53\<close>, are floats without rounding). So the quotient is rounded, and
  its product with 100 is rounded again: 7 positive rows of 100 give
  \<^verbatim>\<open>7.000000000000001\<close>, not 7.
\<close>

definition positive_count :: "cell list \<Rightarrow> nat" where
  "positive_count vs = length (filter (\<lambda>v. eq_cell v (Str ''Positive'')) vs)"

definition positive_rate :: "(real \<Rightarrow> real) \<Rightarrow> string dataframe \<Rightarrow> real option" where
  "positive_rate rnd df =
     (case column ''Sentiment'' df of
        None \<Rightarrow> None
      | Some vs \<Rightarrow>
          if nrows df > 0
          then (let total = nrows df
                in Some (rnd (rnd (real (positive_count vs) / real total) * 100)))
          else None)"

text \<open>
  The co-occurrence heatmap: \<^verbatim>\<open>top_emojis\<close> are the labels of the top \<open>top_n\<close> counts, and
  \<^verbatim>\<open>mat_df\<close> starts as a frame of zeros over them; the loop then sets the column of each
  \<open>e\<close> to \<^verbatim>\<open>(df_filt['Emoji'] == e).astype(int)\<close>.
\<close>

definition top_emojis :: "nat \<Rightarrow> cell list \<Rightarrow> cell list" where
  "top_emojis top_n vs = map fst (nlargest top_n (value_counts vs))"

definition zeros_frame :: "nat \<Rightarrow> 'k list \<Rightarrow> 'k dataframe" where
  "zeros_frame n ks = \<lparr>nrows = n, cols = map (\<lambda>k. (k, replicate n (Num 0))) ks\<rparr>"

definition indicator :: "cell \<Rightarrow> cell list \<Rightarrow> cell list" where
  "indicator e vs = map (\<lambda>v. Num (if eq_cell v e then 1 else 0)) vs"

definition mat_df :: "nat \<Rightarrow> string dataframe \<Rightarrow> cell dataframe option" where
  "mat_df top_n df =
     (case column ''Emoji'' df of
        None \<Rightarrow> None
      | Some vs \<Rightarrow>
          (let es = top_emojis top_n vs
           in Some (foldl (\<lambda>m e. set_col e (indicator e vs) m) (zeros_frame (nrows df) es) es)))"

text \<open>The labels of the columns of an indicator table that hold a 1 in row \<open>i\<close>.\<close>

definition ones_in_row :: "'k dataframe \<Rightarrow> nat \<Rightarrow> 'k list" where
  "ones_in_row m i = map fst (filter (\<lambda>p. snd p ! i = Num 1) (cols m))"

subsection \<open>The page\<close>

text \<open>
  The values the claims are about, as the page computes them from the filtered frame.
\<close>

record dashboard =
  total_tweets :: nat
  kpi_unique_emojis :: nat
  kpi_top_emotion :: cell
  kpi_top_emoji :: cell
  emoji_ranking :: "(cell \<times> nat) list option"
  gauge :: "real option"
  cooccurrence :: "cell dataframe option"

definition render :: "(real \<Rightarrow> real) \<Rightarrow> nat \<Rightarrow> string dataframe \<Rightarrow> dashboard" where
  "render rnd top_n df_filt =
     \<lparr>total_tweets = nrows df_filt,
      kpi_unique_emojis = unique_emoji_count df_filt,
      kpi_top_emotion = top_emotion df_filt,
      kpi_top_emoji = top_emoji df_filt,
      emoji_ranking = emoji_counts top_n df_filt,
      gauge = positive_rate rnd df_filt,
      cooccurrence = mat_df top_n df_filt\<rparr>"

text \<open>
  The script: with an uploaded file, \<^verbatim>\<open>df = process_data(uploaded_file)\<close>, and the whole
  dashboard sits under \<^verbatim>\<open>if not df.empty\<close>. The result is the error reported, if any,
  and the dashboard, if one is drawn.
\<close>

definition app ::
  "(real \<Rightarrow> real) \<Rightarrow> (cell \<Rightarrow> int option) \<Rightarrow> int \<Rightarrow> rng \<Rightarrow> string dataframe option
     \<Rightarrow> cell \<Rightarrow> cell \<Rightarrow> nat \<Rightarrow> load_error option \<times> dashboard option" where
  "app rnd parse now g upload sel_festival sel_sentiment top_n =
     (let (err, df) = process_data parse now g upload
      in if \<not> is_empty df
         then (err, Some (render rnd top_n (apply_filters sel_festival sel_sentiment df)))
         else (err, None))"

text \<open>The frame and the random source that reach step 3.\<close>

definition before_date :: "rng \<Rightarrow> string dataframe \<Rightarrow> string dataframe \<times> rng" where
  "before_date g df = (let (df1, g1) = fill_tweet_id g df in fill_author_id g1 df1)"

section \<open>Frames and the steps of the normalizer\<close>

lemma column_set_col: "column c (set_col k vs df) = (if c = k then Some vs else column c df)"
  by (simp add: column_def set_col_def update_conv')

lemma nrows_set_col: "nrows (set_col k vs df) = nrows df"
  by (simp add: set_col_def)

lemma labels_set_col:
  "map fst (cols (set_col k vs df)) = (if has_col k df then map fst (cols df) else map fst (cols df) @ [k])"
  by (simp add: set_col_def has_col_def column_def update_keys map_of_eq_None_iff)

lemma has_col_set_col: "has_col c (set_col k vs df) = (c = k \<or> has_col c df)"
  by (simp add: has_col_def column_set_col)

lemma randint_range:
  assumes "low < high"
  shows "low \<le> randint low high r \<and> randint low high r < high"
proof -
  have "0 < nat (high - low)" using assms by simp
  then have "r mod nat (high - low) < nat (high - low)" by simp
  then have "int (r mod nat (high - low)) < high - low" using assms by linarith
  then show ?thesis by (simp add: randint_def)
qed

lemma randint_onto: "low \<le> v \<Longrightarrow> v < high \<Longrightarrow> randint low high (nat (v - low)) = v"
  unfolding randint_def by (simp add: nat_less_iff)

lemma column_fill_tweet_id:
  "column c (fst (fill_tweet_id g df)) =
     (if c = ''Tweet_ID'' \<and> \<not> has_col ''Tweet_ID'' df
      then Some (map Num (randint_size 1000000 9999999 (nrows df) g)) else column c df)"
  by (simp add: fill_tweet_id_def column_set_col)

lemma nrows_fill_tweet_id: "nrows (fst (fill_tweet_id g df)) = nrows df"
  by (simp add: fill_tweet_id_def nrows_set_col)

lemma column_fill_author_id:
  "column c (fst (fill_author_id g df)) =
     (if c = ''Author_ID'' \<and> \<not> has_col ''Author_ID'' df
      then Some (map Str (choice authors (nrows df) g)) else column c df)"
  by (simp add: fill_author_id_def column_set_col)

lemma nrows_fill_author_id: "nrows (fst (fill_author_id g df)) = nrows df"
  by (simp add: fill_author_id_def nrows_set_col)

lemma column_fill_text:
  "column c (fill_text df) =
     (if c = ''Tweet_Text'' \<and> \<not> has_col ''Tweet_Text'' df
      then (case column ''Tweet'' df of Some tw \<Rightarrow> Some tw
            | None \<Rightarrow> Some (replicate (nrows df) (Str ''No text available'')))
      else column c df)"
  by (simp add: fill_text_def column_set_col has_col_def split: option.splits)

lemma nrows_fill_text: "nrows (fill_text df) = nrows df"
  by (simp add: fill_text_def nrows_set_col split: option.splits)

lemma column_fill_emoji:
  "column c (fill_emoji df) =
     (if c = ''Emoji'' \<and> \<not> has_col ''Emoji'' df
      then Some (replicate (nrows df) (Str slight_smile)) else column c df)"
  by (simp add: fill_emoji_def column_set_col)

lemma nrows_fill_emoji: "nrows (fill_emoji df) = nrows df"
  by (simp add: fill_emoji_def nrows_set_col)

lemma before_date_eq:
  "before_date g df = fill_author_id (snd (fill_tweet_id g df)) (fst (fill_tweet_id g df))"
  by (simp add: before_date_def case_prod_beta)

lemma process_data_try_Some:
  "process_data_try parse now g (Some raw) =
     (case fill_date parse now (snd (before_date g raw)) (fst (before_date g raw)) of
        Inl e \<Rightarrow> Inl e
      | Inr df3 \<Rightarrow> Inr (fill_emoji (fill_text df3)))"
  by (simp add: process_data_try_def before_date_def case_prod_beta)

lemma column_before_date:
  "column c (fst (before_date g df)) =
     (if c = ''Tweet_ID'' \<and> \<not> has_col ''Tweet_ID'' df
      then Some (map Num (randint_size 1000000 9999999 (nrows df) g))
      else if c = ''Author_ID'' \<and> \<not> has_col ''Author_ID'' df
      then Some (map Str (choice authors (nrows df) (snd (fill_tweet_id g df))))
      else column c df)"
  by (simp add: before_date_eq column_fill_author_id column_fill_tweet_id nrows_fill_tweet_id has_col_def)

lemma nrows_before_date: "nrows (fst (before_date g df)) = nrows df"
  by (simp add: before_date_eq nrows_fill_author_id nrows_fill_tweet_id)

lemma has_col_fill_tweet_id: "has_col c (fst (fill_tweet_id g df)) = (c = ''Tweet_ID'' \<or> has_col c df)"
  by (auto simp: has_col_def column_fill_tweet_id)

lemma has_col_fill_author_id: "has_col c (fst (fill_author_id g df)) = (c = ''Author_ID'' \<or> has_col c df)"
  by (auto simp: has_col_def column_fill_author_id)

lemma has_col_before_date:
  "has_col c (fst (before_date g df)) = (c = ''Tweet_ID'' \<or> c = ''Author_ID'' \<or> has_col c df)"
  by (auto simp: before_date_eq has_col_fill_author_id has_col_fill_tweet_id)

lemma has_col_fill_text: "has_col c (fill_text df) = (c = ''Tweet_Text'' \<or> has_col c df)"
  by (auto simp: has_col_def column_fill_text split: option.splits)

lemma has_col_fill_emoji: "has_col c (fill_emoji df) = (c = ''Emoji'' \<or> has_col c df)"
  by (auto simp: has_col_def column_fill_emoji)

lemma labels_fill_tweet_id:
  "map fst (cols (fst (fill_tweet_id g df))) = map fst (cols df) @ filter (\<lambda>c. \<not> has_col c df) [''Tweet_ID'']"
  by (simp add: fill_tweet_id_def labels_set_col)

lemma labels_fill_author_id:
  "map fst (cols (fst (fill_author_id g df))) = map fst (cols df) @ filter (\<lambda>c. \<not> has_col c df) [''Author_ID'']"
  by (simp add: fill_author_id_def labels_set_col)

lemma labels_fill_text:
  "map fst (cols (fill_text df)) = map fst (cols df) @ filter (\<lambda>c. \<not> has_col c df) [''Tweet_Text'']"
  by (simp add: fill_text_def labels_set_col has_col_def split: option.splits)

lemma labels_fill_emoji:
  "map fst (cols (fill_emoji df)) = map fst (cols df) @ filter (\<lambda>c. \<not> has_col c df) [''Emoji'']"
  by (simp add: fill_emoji_def labels_set_col)

lemma fill_date_Inr:
  assumes "fill_date parse now g df = Inr df'"
  shows "nrows df' = nrows df"
    and "c \<noteq> ''Date'' \<Longrightarrow> column c df' = column c df"
    and "has_col c df' = (c = ''Date'' \<or> has_col c df)"
    and "map fst (cols df') = map fst (cols df) @ filter (\<lambda>c. \<not> has_col c df) [''Date'']"
  using assms
  by (auto simp: fill_date_def nrows_set_col column_set_col has_col_def labels_set_col
           split: option.splits sum.splits)

lemma fill_date_column:
  assumes "fill_date parse now g df = Inr df'"
  shows "column ''Date'' df' =
           (case column ''Date'' df of
              None \<Rightarrow> Some (synth_dates now (nrows df) g)
            | Some vs \<Rightarrow> Some (map (\<lambda>c. the (to_datetime_cell parse c)) vs))"
  using assms
  by (auto simp: fill_date_def column_set_col to_datetime_def split: option.splits sum.splits if_splits)

lemma fill_date_fails:
  "(\<exists>e. fill_date parse now g df = Inl e) \<longleftrightarrow>
     (\<exists>vs. column ''Date'' df = Some vs \<and> \<not> list_all (\<lambda>c. to_datetime_cell parse c \<noteq> None) vs)"
  by (auto simp: fill_date_def to_datetime_def split: option.splits sum.splits if_splits)

lemma fill_date_error: "fill_date parse now g df = Inl e \<Longrightarrow> e = Unparseable_Date"
  by (auto simp: fill_date_def to_datetime_def split: option.splits sum.splits if_splits)

text \<open>What a successful run returns, column by column.\<close>

lemma process_data_try_Inr:
  assumes "process_data_try parse now g (Some raw) = Inr df"
  obtains df3 where
    "fill_date parse now (snd (before_date g raw)) (fst (before_date g raw)) = Inr df3"
    "df = fill_emoji (fill_text df3)"
  using assms by (auto simp: process_data_try_Some split: sum.splits)

lemma nrows_process_data_try:
  assumes "process_data_try parse now g (Some raw) = Inr df"
  shows "nrows df = nrows raw"
  using assms
  by (elim process_data_try_Inr)
     (simp add: nrows_fill_emoji nrows_fill_text fill_date_Inr(1) nrows_before_date)

lemma passthrough_process_data_try:
  assumes "process_data_try parse now g (Some raw) = Inr df"
    and "has_col c raw" and "c \<noteq> ''Date''"
  shows "column c df = column c raw"
proof -
  from assms(1) obtain df3 where
    fd: "fill_date parse now (snd (before_date g raw)) (fst (before_date g raw)) = Inr df3"
    and df: "df = fill_emoji (fill_text df3)"
    by (rule process_data_try_Inr)
  have c3: "column c df3 = column c raw"
    using fill_date_Inr(2)[OF fd assms(3)] assms(2) by (auto simp: column_before_date)
  have h3: "has_col c df3" using assms(2) by (simp add: fill_date_Inr(3)[OF fd] has_col_before_date)
  show ?thesis
    using c3 h3 by (auto simp: df column_fill_emoji column_fill_text has_col_fill_text)
qed

lemma labels_process_data_try:
  assumes "process_data_try parse now g (Some raw) = Inr df"
  shows "map fst (cols df) = map fst (cols raw) @
           filter (\<lambda>c. \<not> has_col c raw) [''Tweet_ID'', ''Author_ID'', ''Date'', ''Tweet_Text'', ''Emoji'']"
proof -
  from assms(1) obtain df3 where
    fd: "fill_date parse now (snd (before_date g raw)) (fst (before_date g raw)) = Inr df3"
    and df: "df = fill_emoji (fill_text df3)"
    by (rule process_data_try_Inr)
  have l2: "map fst (cols (fst (before_date g raw))) =
              map fst (cols raw) @ filter (\<lambda>c. \<not> has_col c raw) [''Tweet_ID'', ''Author_ID'']"
    by (simp add: before_date_eq labels_fill_author_id labels_fill_tweet_id has_col_fill_tweet_id)
  have l3: "map fst (cols df3) =
              map fst (cols raw) @ filter (\<lambda>c. \<not> has_col c raw) [''Tweet_ID'', ''Author_ID'', ''Date'']"
    by (simp add: fill_date_Inr(4)[OF fd] l2 has_col_before_date)
  have l4: "map fst (cols (fill_text df3)) =
              map fst (cols raw) @ filter (\<lambda>c. \<not> has_col c raw) [''Tweet_ID'', ''Author_ID'', ''Date'', ''Tweet_Text'']"
    by (simp add: labels_fill_text l3 fill_date_Inr(3)[OF fd] has_col_before_date)
  show ?thesis
    by (simp add: df labels_fill_emoji l4 has_col_fill_text fill_date_Inr(3)[OF fd] has_col_before_date)
qed

lemma synth_date_window:
  "\<exists>d h. 0 \<le> d \<and> d \<le> 29 \<and> 0 \<le> h \<and> h \<le> 22 \<and>
     synth_date now g i = now - timedelta 30 0 + timedelta d 0 + timedelta 0 h"
proof -
  let ?d = "randint 0 30 (g (2 * i))" and ?h = "randint 0 23 (g (2 * i + 1))"
  have "0 \<le> ?d \<and> ?d < 30" by (rule randint_range) simp
  moreover have "0 \<le> ?h \<and> ?h < 23" by (rule randint_range) simp
  moreover have "synth_date now g i = now - timedelta 30 0 + timedelta ?d 0 + timedelta 0 ?h"
    by (simp add: synth_date_def timedelta_def)
  ultimately show ?thesis by force
qed

section \<open>The claims about the normalizer\<close>

subsection \<open>Synthesized dates\<close>

text \<open>
  Claim C4. For every raw table without a \<^verbatim>\<open>Date\<close> column, normalization succeeds and
  every synthesized timestamp is \<open>now\<close> minus 30 days, plus a whole number of days in
  0..29, plus a whole number of hours in 0..22; hence it is at least \<open>now\<close> minus 30 days
  and strictly before \<open>now\<close>.
\<close>

theorem synthesized_dates_window:
  assumes "column ''Date'' raw = None"
  shows "fst (process_data parse now g (Some raw)) = None \<and>
         (\<exists>ts. column ''Date'' (snd (process_data parse now g (Some raw))) = Some (map Stamp ts) \<and>
               length ts = nrows raw \<and>
               (\<forall>t \<in> set ts.
                  (\<exists>d h. 0 \<le> d \<and> d \<le> 29 \<and> 0 \<le> h \<and> h \<le> 22 \<and>
                     t = now - timedelta 30 0 + timedelta d 0 + timedelta 0 h) \<and>
                  now - timedelta 30 0 \<le> t \<and> t < now))"
proof -
  let ?df2 = "fst (before_date g raw)" and ?g2 = "snd (before_date g raw)"
  let ?ts = "map (synth_date now ?g2) [0..<nrows raw]"
  have no_date: "column ''Date'' ?df2 = None"
    using assms by (simp add: column_before_date)
  have fd: "fill_date parse now ?g2 ?df2 = Inr (set_col ''Date'' (map Stamp ?ts) ?df2)"
    by (simp add: fill_date_def no_date synth_dates_def nrows_before_date comp_def)
  have res: "process_data parse now g (Some raw) =
               (None, fill_emoji (fill_text (set_col ''Date'' (map Stamp ?ts) ?df2)))"
    by (simp add: process_data_def process_data_try_Some fd)
  have col: "column ''Date'' (fill_emoji (fill_text (set_col ''Date'' (map Stamp ?ts) ?df2)))
               = Some (map Stamp ?ts)"
    by (simp add: column_fill_emoji column_fill_text column_set_col)
  have win: "(\<exists>d h. 0 \<le> d \<and> d \<le> 29 \<and> 0 \<le> h \<and> h \<le> 22 \<and>
                 t = now - timedelta 30 0 + timedelta d 0 + timedelta 0 h) \<and>
             now - timedelta 30 0 \<le> t \<and> t < now" if "t \<in> set ?ts" for t
  proof -
    from that obtain i where t: "t = synth_date now ?g2 i" by auto
    from synth_date_window[of now ?g2 i] obtain d h where
      dh: "0 \<le> d" "d \<le> 29" "0 \<le> h" "h \<le> 22"
          "t = now - timedelta 30 0 + timedelta d 0 + timedelta 0 h"
      unfolding t by blast
    then have "now - timedelta 30 0 \<le> t" "t < now"
      by (simp_all add: timedelta_def)
    with dh show ?thesis by blast
  qed
  have "\<forall>t \<in> set ?ts.
          (\<exists>d h. 0 \<le> d \<and> d \<le> 29 \<and> 0 \<le> h \<and> h \<le> 22 \<and>
             t = now - timedelta 30 0 + timedelta d 0 + timedelta 0 h) \<and>
          now - timedelta 30 0 \<le> t \<and> t < now"
    using win by blast
  moreover have "length ?ts = nrows raw" by simp
  moreover have "column ''Date'' (snd (process_data parse now g (Some raw))) = Some (map Stamp ?ts)"
    by (simp only: res snd_conv col)
  moreover have "fst (process_data parse now g (Some raw)) = None"
    by (simp only: res fst_conv)
  ultimately show ?thesis by blast
qed

theorem synthesized_dates_window_witness:
  "column ''Date'' \<lparr>nrows = 2, cols = [(''Emoji'', [Str ''x'', Str ''y''])]\<rparr> = None \<and>
   fst (process_data (\<lambda>c. None) 2592000000000 (\<lambda>i. 5)
          (Some \<lparr>nrows = 2, cols = [(''Emoji'', [Str ''x'', Str ''y''])]\<rparr>)) = None \<and>
   column ''Date'' (snd (process_data (\<lambda>c. None) 2592000000000 (\<lambda>i. 5)
          (Some \<lparr>nrows = 2, cols = [(''Emoji'', [Str ''x'', Str ''y''])]\<rparr>)))
     = Some [Stamp 450000000000, Stamp 450000000000]"
proof -
  have h: "column ''Date'' \<lparr>nrows = 2, cols = [(''Emoji'', [Str ''x'', Str ''y''])]\<rparr> = None"
    by (simp add: column_def)
  have c: "column ''Date'' (snd (process_data (\<lambda>c. None) 2592000000000 (\<lambda>i. 5)
          (Some \<lparr>nrows = 2, cols = [(''Emoji'', [Str ''x'', Str ''y''])]\<rparr>)))
     = Some [Stamp 450000000000, Stamp 450000000000]"
    by (simp add: process_data_def process_data_try_def fill_tweet_id_def fill_author_id_def
      fill_date_def fill_text_def fill_emoji_def has_col_def column_def set_col_def
      synth_dates_def synth_date_def timedelta_def randint_def advance_def upt_conv_Cons)
  have r: "fst (process_data (\<lambda>c. None) 2592000000000 (\<lambda>i. 5)
          (Some \<lparr>nrows = 2, cols = [(''Emoji'', [Str ''x'', Str ''y''])]\<rparr>)) = None"
    using synthesized_dates_window[OF h] by (rule conjunct1)
  show ?thesis by (intro conjI) (rule h, rule r, rule c)
qed

subsection \<open>When a run succeeds and when it fails\<close>

lemma process_data_ok:
  "process_data parse now g upload = (None, df) \<longleftrightarrow> process_data_try parse now g upload = Inr df"
  by (auto simp: process_data_def split: sum.splits)

lemma process_data_succeeds:
  "fst (process_data parse now g upload) = None \<longleftrightarrow> \<not> (\<exists>e. process_data_try parse now g upload = Inl e)"
  by (auto simp: process_data_def split: sum.splits)

lemma date_of_process_data_try:
  assumes "process_data_try parse now g (Some raw) = Inr df"
  shows "column ''Date'' df =
           (case column ''Date'' raw of
              None \<Rightarrow> Some (synth_dates now (nrows raw) (snd (before_date g raw)))
            | Some vs \<Rightarrow> Some (map (\<lambda>c. the (to_datetime_cell parse c)) vs))"
proof -
  from assms(1) obtain df3 where
    fd: "fill_date parse now (snd (before_date g raw)) (fst (before_date g raw)) = Inr df3"
    and df: "df = fill_emoji (fill_text df3)"
    by (rule process_data_try_Inr)
  have "column ''Date'' df = column ''Date'' df3"
    by (simp add: df column_fill_emoji column_fill_text)
  then show ?thesis
    by (simp add: fill_date_column[OF fd] column_before_date nrows_before_date split: option.splits)
qed

lemma tweet_id_of_process_data_try:
  assumes "process_data_try parse now g (Some raw) = Inr df" and "column ''Tweet_ID'' raw = None"
  shows "column ''Tweet_ID'' df = Some (map Num (randint_size 1000000 9999999 (nrows raw) g))"
proof -
  from assms(1) obtain df3 where
    fd: "fill_date parse now (snd (before_date g raw)) (fst (before_date g raw)) = Inr df3"
    and df: "df = fill_emoji (fill_text df3)"
    by (rule process_data_try_Inr)
  have "column ''Tweet_ID'' df = column ''Tweet_ID'' df3"
    by (simp add: df column_fill_emoji column_fill_text)
  also have "\<dots> = column ''Tweet_ID'' (fst (before_date g raw))"
    by (rule fill_date_Inr(2)[OF fd]) simp
  finally show ?thesis using assms(2) by (simp add: column_before_date has_col_def)
qed

lemma process_data_try_fails:
  "(\<exists>e. process_data_try parse now g upload = Inl e) \<longleftrightarrow>
     (case upload of
        None \<Rightarrow> True
      | Some raw \<Rightarrow> (\<exists>vs. column ''Date'' raw = Some vs \<and> (\<exists>c \<in> set vs. to_datetime_cell parse c = None)))"
proof (cases upload)
  case None
  then show ?thesis by (simp add: process_data_try_def)
next
  case (Some raw)
  have "(\<exists>e. process_data_try parse now g (Some raw) = Inl e) \<longleftrightarrow>
          (\<exists>e. fill_date parse now (snd (before_date g raw)) (fst (before_date g raw)) = Inl e)"
    by (auto simp: process_data_try_Some split: sum.splits)
  also have "\<dots> \<longleftrightarrow> (\<exists>vs. column ''Date'' raw = Some vs \<and> (\<exists>c \<in> set vs. to_datetime_cell parse c = None))"
    by (simp add: fill_date_fails column_before_date list_all_iff)
  finally show ?thesis using Some by simp
qed

lemma process_data_try_error:
  assumes "process_data_try parse now g upload = Inl e"
  shows "e = (case upload of None \<Rightarrow> Unreadable | Some raw \<Rightarrow> Unparseable_Date)"
proof (cases upload)
  case None
  with assms show ?thesis by (auto simp: process_data_try_def)
next
  case (Some raw)
  with assms show ?thesis
    by (auto simp: process_data_try_Some split: sum.splits dest: fill_date_error)
qed

subsection \<open>Synthesized identifiers\<close>

text \<open>
  Claim C3, on the code. For every raw table without a \<^verbatim>\<open>Tweet_ID\<close> column that
  normalizes, the identifiers are one draw of \<^verbatim>\<open>randint(1000000, 9999999)\<close> per row, and
  every one of them lies between 1,000,000 and 9,999,998: the upper bound of the call is
  exclusive, so 9,999,999 is never drawn.
\<close>

theorem synthesized_ids_range:
  assumes "column ''Tweet_ID'' raw = None"
    and "process_data parse now g (Some raw) = (None, df)"
  shows "\<exists>ids. column ''Tweet_ID'' df = Some (map Num ids) \<and> length ids = nrows raw \<and>
               (\<forall>v \<in> set ids. 1000000 \<le> v \<and> v \<le> 9999998)"
proof -
  let ?ids = "randint_size 1000000 9999999 (nrows raw) g"
  have "column ''Tweet_ID'' df = Some (map Num ?ids)"
    using assms by (simp add: process_data_ok tweet_id_of_process_data_try)
  moreover have "length ?ids = nrows raw" by (simp add: randint_size_def)
  moreover have "1000000 \<le> v \<and> v \<le> 9999998" if "v \<in> set ?ids" for v
  proof -
    from that obtain r where "v = randint 1000000 9999999 r" by (auto simp: randint_size_def)
    moreover have "1000000 \<le> randint 1000000 9999999 r \<and> randint 1000000 9999999 r < 9999999"
      by (rule randint_range) simp
    ultimately show ?thesis by simp
  qed
  ultimately show ?thesis by blast
qed

theorem synthesized_ids_range_witness:
  "column ''Tweet_ID'' \<lparr>nrows = 2, cols = [(''Emoji'', [Str ''x'', Str ''y''])]\<rparr> = None \<and>
   (\<exists>ids. column ''Tweet_ID'' (snd (process_data (\<lambda>c. None) 0 (\<lambda>i. 8999998 + i)
             (Some \<lparr>nrows = 2, cols = [(''Emoji'', [Str ''x'', Str ''y''])]\<rparr>))) = Some (map Num ids) \<and>
          length ids = 2 \<and> (\<forall>v \<in> set ids. 1000000 \<le> v \<and> v \<le> 9999998))"
proof -
  let ?raw = "\<lparr>nrows = 2, cols = [(''Emoji'', [Str ''x'', Str ''y''])]\<rparr> :: string dataframe"
  have h: "column ''Tweet_ID'' ?raw = None" by (simp add: column_def)
  have "fst (process_data (\<lambda>c. None) 0 (\<lambda>i. 8999998 + i) (Some ?raw)) = None"
    by (simp add: process_data_succeeds process_data_try_fails column_def)
  then have ok: "process_data (\<lambda>c. None) 0 (\<lambda>i. 8999998 + i) (Some ?raw) =
                   (None, snd (process_data (\<lambda>c. None) 0 (\<lambda>i. 8999998 + i) (Some ?raw)))"
    by (metis prod.collapse)
  from synthesized_ids_range[OF h ok] h show ?thesis by simp
qed

text \<open>
  Every value from 1,000,000 to 9,999,998 is drawn by some random source, and nothing
  keeps two rows from drawing the same one.
\<close>

lemma synthesized_ids_possible:
  assumes "1000000 \<le> v" and "v \<le> 9999998"
  shows "randint_size 1000000 9999999 n (\<lambda>i. nat (v - 1000000)) = replicate n v"
proof -
  have "randint 1000000 9999999 (nat (v - 1000000)) = v"
    using assms by (intro randint_onto) simp_all
  then show ?thesis by (simp add: randint_size_def map_replicate_const)
qed

lemma highest_id_impossible: "randint 1000000 9999999 r \<noteq> 9999999"
  using randint_range[of 1000000 9999999 r] by simp

subsection \<open>Failure and success of the normalizer\<close>

text \<open>
  Claim C6. Normalization fails in exactly two cases: the file cannot be read, or the
  table has a \<^verbatim>\<open>Date\<close> column with a cell that does not parse. In both the error is
  reported, the frame returned is the empty one, and the page draws no dashboard. On
  every other input no error is reported.
\<close>

theorem normalize_fails_only_on_bad_input:
  "(case upload of
      None \<Rightarrow> process_data parse now g upload = (Some Unreadable, empty_frame)
    | Some raw \<Rightarrow>
        if (\<exists>vs. column ''Date'' raw = Some vs \<and> (\<exists>c \<in> set vs. to_datetime_cell parse c = None))
        then process_data parse now g upload = (Some Unparseable_Date, empty_frame)
        else fst (process_data parse now g upload) = None) \<and>
   (fst (process_data parse now g upload) \<noteq> None \<longrightarrow>
      app rnd parse now g upload sel_festival sel_sentiment top_n =
        (fst (process_data parse now g upload), None))"
proof (intro conjI impI)
  show "case upload of
      None \<Rightarrow> process_data parse now g upload = (Some Unreadable, empty_frame)
    | Some raw \<Rightarrow>
        if (\<exists>vs. column ''Date'' raw = Some vs \<and> (\<exists>c \<in> set vs. to_datetime_cell parse c = None))
        then process_data parse now g upload = (Some Unparseable_Date, empty_frame)
        else fst (process_data parse now g upload) = None"
  proof (cases upload)
    case None
    then show ?thesis by (simp add: process_data_def process_data_try_def)
  next
    case (Some raw)
    show ?thesis
    proof (cases "\<exists>vs. column ''Date'' raw = Some vs \<and> (\<exists>c \<in> set vs. to_datetime_cell parse c = None)")
      case True
      then have "\<exists>e. process_data_try parse now g upload = Inl e"
        using Some by (simp add: process_data_try_fails)
      then obtain e where e: "process_data_try parse now g upload = Inl e" ..
      from process_data_try_error[OF e] have "e = Unparseable_Date" using Some by simp
      with e have "process_data parse now g upload = (Some Unparseable_Date, empty_frame)"
        by (simp add: process_data_def)
      then show ?thesis unfolding Some by (simp only: option.case if_P[OF True])
    next
      case False
      then have "\<not> (\<exists>e. process_data_try parse now g upload = Inl e)"
        using Some by (simp add: process_data_try_fails)
      then have "fst (process_data parse now g upload) = None"
        by (simp add: process_data_succeeds)
      then show ?thesis unfolding Some by (simp only: option.case if_not_P[OF False])
    qed
  qed
next
  assume "fst (process_data parse now g upload) \<noteq> None"
  then have "snd (process_data parse now g upload) = empty_frame"
    by (auto simp: process_data_def split: sum.splits)
  then show "app rnd parse now g upload sel_festival sel_sentiment top_n =
        (fst (process_data parse now g upload), None)"
    by (simp add: app_def case_prod_beta is_empty_def empty_frame_def)
qed

theorem normalize_fails_only_on_bad_input_witness:
  "process_data (\<lambda>c. None) 0 (\<lambda>i. 0)
     (Some \<lparr>nrows = 1, cols = [(''Date'', [Str ''soon'']), (''Emoji'', [Str ''x''])]\<rparr>)
     = (Some Unparseable_Date, empty_frame) \<and>
   app (\<lambda>x. x) (\<lambda>c. None) 0 (\<lambda>i. 0)
     (Some \<lparr>nrows = 1, cols = [(''Date'', [Str ''soon'']), (''Emoji'', [Str ''x''])]\<rparr>)
     (Str ''All'') (Str ''All'') 10
     = (Some Unparseable_Date, None)"
proof -
  let ?raw = "\<lparr>nrows = 1, cols = [(''Date'', [Str ''soon'']), (''Emoji'', [Str ''x''])]\<rparr> :: string dataframe"
  have bad: "\<exists>vs. column ''Date'' ?raw = Some vs \<and> (\<exists>c \<in> set vs. to_datetime_cell (\<lambda>c. None) c = None)"
    by (simp add: column_def to_datetime_cell_def)
  from normalize_fails_only_on_bad_input
         [where upload = "Some ?raw" and parse = "\<lambda>c. None" and now = 0 and g = "\<lambda>i. 0"
            and sel_festival = "Str ''All''" and sel_sentiment = "Str ''All''" and top_n = 10
            and rnd = "\<lambda>x. x"] bad
  show ?thesis by simp
qed

subsection \<open>A table that is already canonical\<close>

text \<open>
  Claim C5, as stated, fails: a \<^verbatim>\<open>Date\<close> column of texts that parse is replaced by the
  parsed date-times, so the table does not come back unchanged.
\<close>

theorem normalize_canonical_counterexample:
  "snd (process_data (\<lambda>c. Some 0) 0 (\<lambda>i. 0)
     (Some \<lparr>nrows = 1, cols = [(''Tweet_ID'', [Num 1234567]), (''Author_ID'', [Str ''Meera_N'']),
        (''Date'', [Str ''1970-01-01'']), (''Tweet_Text'', [Str ''hello'']), (''Emoji'', [Str '':)''])]\<rparr>))
   = \<lparr>nrows = 1, cols = [(''Tweet_ID'', [Num 1234567]), (''Author_ID'', [Str ''Meera_N'']),
        (''Date'', [Stamp 0]), (''Tweet_Text'', [Str ''hello'']), (''Emoji'', [Str '':)''])]\<rparr> \<and>
   snd (process_data (\<lambda>c. Some 0) 0 (\<lambda>i. 0)
     (Some \<lparr>nrows = 1, cols = [(''Tweet_ID'', [Num 1234567]), (''Author_ID'', [Str ''Meera_N'']),
        (''Date'', [Str ''1970-01-01'']), (''Tweet_Text'', [Str ''hello'']), (''Emoji'', [Str '':)''])]\<rparr>))
   \<noteq> \<lparr>nrows = 1, cols = [(''Tweet_ID'', [Num 1234567]), (''Author_ID'', [Str ''Meera_N'']),
        (''Date'', [Str ''1970-01-01'']), (''Tweet_Text'', [Str ''hello'']), (''Emoji'', [Str '':)''])]\<rparr>"
  by (simp add: process_data_def process_data_try_def fill_tweet_id_def fill_author_id_def
      fill_date_def fill_text_def fill_emoji_def has_col_def column_def set_col_def
      to_datetime_def to_datetime_cell_def)

text \<open>
  Claim C5, amended. For every table that has the five canonical columns and whose
  \<^verbatim>\<open>Date\<close> cells already are date-times (or missing), normalization reports no error,
  draws nothing from the random source and returns the table unchanged.
\<close>

theorem normalize_canonical_unchanged:
  assumes "has_col ''Tweet_ID'' df" and "has_col ''Author_ID'' df"
    and "has_col ''Tweet_Text'' df" and "has_col ''Emoji'' df"
    and "column ''Date'' df = Some ds"
    and "\<forall>c \<in> set ds. c = NaN \<or> (\<exists>t. c = Stamp t)"
  shows "process_data parse now g (Some df) = (None, df)"
proof -
  have bd: "before_date g df = (df, g)"
    using assms(1,2) by (simp add: before_date_eq fill_tweet_id_def fill_author_id_def)
  have cell: "to_datetime_cell parse c = Some c" if "c \<in> set ds" for c
    using assms(6) that by (auto simp: to_datetime_cell_def)
  then have "list_all (\<lambda>c. to_datetime_cell parse c \<noteq> None) ds"
    by (simp add: list_all_iff)
  moreover have "map (\<lambda>c. the (to_datetime_cell parse c)) ds = ds"
    using cell by (simp add: map_idI)
  ultimately have td: "to_datetime parse ds = Inr ds"
    by (simp add: to_datetime_def)
  have "set_col ''Date'' ds df = df"
    using assms(5) by (simp add: set_col_def column_def update_triv)
  then have fd: "fill_date parse now g df = Inr df"
    using assms(5) td by (simp add: fill_date_def)
  have ft: "fill_text df = df"
    using assms(3) by (auto simp: fill_text_def has_col_def split: option.splits)
  have fe: "fill_emoji df = df"
    using assms(4) by (simp add: fill_emoji_def)
  show ?thesis
    by (simp add: process_data_def process_data_try_Some bd fd ft fe)
qed

theorem normalize_canonical_unchanged_witness:
  "process_data (\<lambda>c. None) 0 (\<lambda>i. 0)
     (Some \<lparr>nrows = 2, cols = [(''Tweet_ID'', [Num 1234567, Num 7654321]),
        (''Author_ID'', [Str ''Meera_N'', Str ''Rohan_M'']), (''Date'', [Stamp 86400000000, NaN]),
        (''Tweet_Text'', [Str ''hello'', Str ''bye'']), (''Emoji'', [Str '':)'', Str '':o''])]\<rparr>)
   = (None, \<lparr>nrows = 2, cols = [(''Tweet_ID'', [Num 1234567, Num 7654321]),
        (''Author_ID'', [Str ''Meera_N'', Str ''Rohan_M'']), (''Date'', [Stamp 86400000000, NaN]),
        (''Tweet_Text'', [Str ''hello'', Str ''bye'']), (''Emoji'', [Str '':)'', Str '':o''])]\<rparr>)"
  by (rule normalize_canonical_unchanged[where ds = "[Stamp 86400000000, NaN]"])
     (simp_all add: has_col_def column_def)

subsection \<open>What normalization leaves alone\<close>

text \<open>
  Claim C9, as stated, fails: a table that was read but whose \<^verbatim>\<open>Date\<close> column does not
  parse comes back as the empty frame, so its rows are not preserved.
\<close>

theorem normalize_preserves_counterexample:
  "nrows (snd (process_data (\<lambda>c. None) 0 (\<lambda>i. 0)
      (Some \<lparr>nrows = 1, cols = [(''Date'', [Str ''soon'']), (''Emoji'', [Str ''x''])]\<rparr>))) = 0 \<and>
   nrows \<lparr>nrows = 1, cols = [(''Date'', [Str ''soon'']), (''Emoji'', [Str ''x''])]\<rparr> = (1 :: nat) \<and>
   column ''Emoji'' (snd (process_data (\<lambda>c. None) 0 (\<lambda>i. 0)
      (Some \<lparr>nrows = 1, cols = [(''Date'', [Str ''soon'']), (''Emoji'', [Str ''x''])]\<rparr>))) = None"
  by (simp add: process_data_def process_data_try_def fill_tweet_id_def fill_author_id_def
      fill_date_def has_col_def column_def set_col_def to_datetime_def to_datetime_cell_def
      empty_frame_def)

text \<open>
  Claim C9, amended. For every raw table that was read and whose normalization does not
  fail on the \<^verbatim>\<open>Date\<close> column: the number of rows is preserved; every column of the raw
  table other than \<^verbatim>\<open>Date\<close> keeps its values in their order; the labels are those of
  the raw table, in their order, followed by the canonical labels that were missing; and a
  \<^verbatim>\<open>Date\<close> column of the raw table is replaced by its parse.
\<close>

theorem normalize_preserves:
  assumes "process_data parse now g (Some raw) = (None, df)"
  shows "nrows df = nrows raw \<and>
         (\<forall>c. has_col c raw \<and> c \<noteq> ''Date'' \<longrightarrow> column c df = column c raw) \<and>
         map fst (cols df) = map fst (cols raw) @
           filter (\<lambda>c. \<not> has_col c raw) [''Tweet_ID'', ''Author_ID'', ''Date'', ''Tweet_Text'', ''Emoji''] \<and>
         (\<forall>vs. column ''Date'' raw = Some vs \<longrightarrow>
            (\<exists>ts. to_datetime parse vs = Inr ts \<and> column ''Date'' df = Some ts))"
proof -
  have ok: "process_data_try parse now g (Some raw) = Inr df"
    using assms by (simp add: process_data_ok)
  have "\<exists>ts. to_datetime parse vs = Inr ts \<and> column ''Date'' df = Some ts"
    if vs: "column ''Date'' raw = Some vs" for vs
  proof -
    have "\<not> (\<exists>e. process_data_try parse now g (Some raw) = Inl e)" using ok by simp
    then have "list_all (\<lambda>c. to_datetime_cell parse c \<noteq> None) vs"
      using vs by (auto simp: process_data_try_fails list_all_iff)
    then have "to_datetime parse vs = Inr (map (\<lambda>c. the (to_datetime_cell parse c)) vs)"
      by (simp add: to_datetime_def)
    moreover have "column ''Date'' df = Some (map (\<lambda>c. the (to_datetime_cell parse c)) vs)"
      by (simp add: date_of_process_data_try[OF ok] vs)
    ultimately show ?thesis by simp
  qed
  then show ?thesis
    using nrows_process_data_try[OF ok] passthrough_process_data_try[OF ok]
      labels_process_data_try[OF ok]
    by blast
qed

theorem normalize_preserves_witness:
  "process_data (\<lambda>c. Some 0) 0 (\<lambda>i. 0)
     (Some \<lparr>nrows = 1, cols = [(''Date'', [Str ''1970-01-01'']), (''Festival'', [Str ''Diwali''])]\<rparr>)
   = (None, \<lparr>nrows = 1, cols = [(''Date'', [Stamp 0]), (''Festival'', [Str ''Diwali'']),
        (''Tweet_ID'', [Num 1000000]), (''Author_ID'', [Str ''Ananya_Rao'']),
        (''Tweet_Text'', [Str ''No text available'']), (''Emoji'', [Str slight_smile])]\<rparr>) \<and>
   column ''Festival'' \<lparr>nrows = 1, cols = [(''Date'', [Stamp 0]), (''Festival'', [Str ''Diwali'']),
        (''Tweet_ID'', [Num 1000000]), (''Author_ID'', [Str ''Ananya_Rao'']),
        (''Tweet_Text'', [Str ''No text available'']), (''Emoji'', [Str slight_smile])]\<rparr>
   = column ''Festival'' \<lparr>nrows = 1, cols = [(''Date'', [Str ''1970-01-01'']), (''Festival'', [Str ''Diwali''])]\<rparr>"
proof -
  have run: "process_data (\<lambda>c. Some 0) 0 (\<lambda>i. 0)
     (Some \<lparr>nrows = 1, cols = [(''Date'', [Str ''1970-01-01'']), (''Festival'', [Str ''Diwali''])]\<rparr>)
   = (None, \<lparr>nrows = 1, cols = [(''Date'', [Stamp 0]), (''Festival'', [Str ''Diwali'']),
        (''Tweet_ID'', [Num 1000000]), (''Author_ID'', [Str ''Ananya_Rao'']),
        (''Tweet_Text'', [Str ''No text available'']), (''Emoji'', [Str slight_smile])]\<rparr>)"
    by (simp add: process_data_def process_data_try_def fill_tweet_id_def fill_author_id_def
      fill_date_def fill_text_def fill_emoji_def has_col_def column_def set_col_def
      to_datetime_def to_datetime_cell_def randint_size_def randint_def choice_def authors_def
      advance_def)
  have "has_col ''Festival'' \<lparr>nrows = 1, cols = [(''Date'', [Str ''1970-01-01'']), (''Festival'', [Str ''Diwali''])]\<rparr>"
    by (simp add: has_col_def column_def)
  with normalize_preserves[OF run] run show ?thesis by simp
qed

section \<open>Well-formed frames\<close>

lemma wf_column_length: "wf_frame df \<Longrightarrow> column c df = Some vs \<Longrightarrow> length vs = nrows df"
  by (auto simp: wf_frame_def column_def list_all_iff dest: map_of_SomeD)

lemma in_update_cases: "p \<in> set (AList.update k v al) \<Longrightarrow> p = (k, v) \<or> p \<in> set al"
  by (induction al) (auto split: if_splits)

lemma wf_set_col: "wf_frame df \<Longrightarrow> length vs = nrows df \<Longrightarrow> wf_frame (set_col c vs df)"
  by (auto simp: wf_frame_def set_col_def list_all_iff distinct_update dest!: in_update_cases)

lemma wf_before_date: "wf_frame df \<Longrightarrow> wf_frame (fst (before_date g df))"
  by (simp add: before_date_eq fill_tweet_id_def fill_author_id_def wf_set_col
        randint_size_def choice_def nrows_set_col)

lemma wf_fill_date:
  assumes "wf_frame df" and "fill_date parse now g df = Inr df'"
  shows "wf_frame df'"
  using assms
  by (auto simp: fill_date_def synth_dates_def to_datetime_def
           intro!: wf_set_col dest: wf_column_length split: option.splits sum.splits if_splits)

lemma wf_fill_text: "wf_frame df \<Longrightarrow> wf_frame (fill_text df)"
  by (auto simp: fill_text_def intro!: wf_set_col dest: wf_column_length split: option.splits)

lemma wf_fill_emoji: "wf_frame df \<Longrightarrow> wf_frame (fill_emoji df)"
  by (simp add: fill_emoji_def wf_set_col)

lemma wf_process_data_try:
  assumes "wf_frame raw" and "process_data_try parse now g (Some raw) = Inr df"
  shows "wf_frame df"
  using assms(2)
  by (elim process_data_try_Inr)
     (simp add: wf_fill_emoji wf_fill_text wf_fill_date[OF wf_before_date[OF assms(1)]])

section \<open>Masks\<close>

lemma keep_Nil [simp]: "keep bs [] = []" "keep [] xs = []"
  by (simp_all add: keep_def)

lemma keep_Cons [simp]: "keep (b # bs) (x # xs) = (if b then x # keep bs xs else keep bs xs)"
  by (simp add: keep_def)

lemma keep_map: "keep bs (map f xs) = map f (keep bs xs)"
  by (induction bs xs rule: list_induct2') simp_all

lemma length_keep: "length xs = length ys \<Longrightarrow> length (keep bs xs) = length (keep bs ys)"
proof (induction bs arbitrary: xs ys)
  case Nil
  then show ?case by simp
next
  case (Cons b bs)
  then show ?case by (cases xs; cases ys) simp_all
qed

lemma keep_all: "length xs \<le> length bs \<Longrightarrow> list_all (\<lambda>b. b) bs \<Longrightarrow> keep bs xs = xs"
proof (induction bs arbitrary: xs)
  case Nil
  then show ?case by simp
next
  case (Cons b bs)
  then show ?case by (cases xs) simp_all
qed

lemma keep_filter: "keep (map P xs) xs = filter P xs"
  by (induction xs) simp_all

lemma keep_keep:
  "length bs = length cs \<Longrightarrow> keep (keep bs cs) (keep bs xs) = keep (map2 (\<and>) bs cs) xs"
proof (induction bs arbitrary: cs xs)
  case Nil
  then show ?case by simp
next
  case (Cons b bs)
  then show ?case by (cases cs; cases xs) simp_all
qed

section \<open>Selecting rows\<close>

lemma map_of_map_snd: "map_of (map (\<lambda>p. (fst p, f (snd p))) al) k = map_option f (map_of al k)"
  by (induction al) auto

lemma column_select_rows: "column c (select_rows bs df) = map_option (keep bs) (column c df)"
  by (simp add: column_def select_rows_def map_of_map_snd)

lemma select_rows_all:
  assumes "wf_frame df" and "length bs = nrows df" and "list_all (\<lambda>b. b) bs"
  shows "select_rows bs df = df"
proof -
  have "keep bs [0..<nrows df] = [0..<nrows df]"
    using assms by (simp add: keep_all)
  moreover have "map (\<lambda>p. (fst p, keep bs (snd p))) (cols df) = cols df"
    using assms by (intro map_idI) (auto simp: wf_frame_def list_all_iff keep_all)
  ultimately show ?thesis by (simp add: select_rows_def)
qed

lemma nrows_select_rows:
  assumes "length bs = nrows df"
  shows "nrows (select_rows bs df) = length (filter (\<lambda>b. b) bs)"
proof -
  have "length (keep bs [0..<nrows df]) = length (keep bs bs)"
    using assms by (intro length_keep) simp
  also have "keep bs bs = filter (\<lambda>b. b) bs"
    using keep_filter[of "\<lambda>b. b" bs] by simp
  finally show ?thesis by (simp add: select_rows_def)
qed

lemma select_rows_twice:
  assumes "length bs = length cs"
  shows "select_rows (keep bs cs) (select_rows bs df) = select_rows (map2 (\<and>) bs cs) df"
proof -
  have "length (keep (keep bs cs) [0..<length (keep bs [0..<nrows df])])
          = length (keep (keep bs cs) (keep bs [0..<nrows df]))"
    by (intro length_keep) simp
  then have "length (keep (keep bs cs) [0..<length (keep bs [0..<nrows df])])
          = length (keep (map2 (\<and>) bs cs) [0..<nrows df])"
    by (simp add: keep_keep[OF assms])
  then show ?thesis
    by (simp add: select_rows_def comp_def keep_keep[OF assms])
qed

lemma wf_select_rows:
  assumes "wf_frame df" 
  shows "wf_frame (select_rows bs df)"
  using assms
  by (auto simp: wf_frame_def select_rows_def list_all_iff comp_def intro!: length_keep)

section \<open>The filters\<close>

lemma filter_by_mask:
  assumes "wf_frame df"
  shows "filter_by c sel df = select_rows (map (matches c sel df) [0..<nrows df]) df"
proof (cases "column c df")
  case None
  then have "select_rows (map (matches c sel df) [0..<nrows df]) df = df"
    using assms by (intro select_rows_all) (simp_all add: matches_def list_all_iff)
  with None show ?thesis by (simp add: filter_by_def)
next
  case (Some vs)
  have len: "length vs = nrows df" using assms Some by (rule wf_column_length)
  show ?thesis
  proof (cases "sel = Str ''All''")
    case True
    then have "select_rows (map (matches c sel df) [0..<nrows df]) df = df"
      using assms by (intro select_rows_all) (simp_all add: matches_def list_all_iff)
    with True Some show ?thesis by (simp add: filter_by_def)
  next
    case False
    have "matches c sel df = (\<lambda>i. eq_cell (vs ! i) sel)"
      by (rule ext) (simp add: matches_def False Some)
    then have "map (matches c sel df) [0..<nrows df] = map (\<lambda>i. eq_cell (vs ! i) sel) [0..<length vs]"
      by (simp only: len)
    also have "\<dots> = map (\<lambda>v. eq_cell v sel) vs"
      by (rule nth_equalityI) simp_all
    finally show ?thesis using False Some by (simp add: filter_by_def)
  qed
qed

lemma filter_by_All: "filter_by c (Str ''All'') df = df"
  by (simp add: filter_by_def split: option.splits)

lemma filter_by_after_select:
  assumes "wf_frame df" and "length bs = nrows df"
  shows "filter_by c sel (select_rows bs df)
           = select_rows (keep bs (map (matches c sel df) [0..<nrows df])) (select_rows bs df)"
proof (cases "sel = Str ''All'' \<or> column c df = None")
  case True
  have "select_rows (keep bs (map (matches c sel df) [0..<nrows df])) (select_rows bs df)
          = select_rows bs df"
  proof (rule select_rows_all)
    show "wf_frame (select_rows bs df)" using assms(1) by (rule wf_select_rows)
    show "length (keep bs (map (matches c sel df) [0..<nrows df])) = nrows (select_rows bs df)"
      by (simp add: select_rows_def length_keep)
    have "list_all (\<lambda>b. b) (map (matches c sel df) (keep bs [0..<nrows df]))"
      using True by (auto simp: matches_def list_all_iff)
    then show "list_all (\<lambda>b. b) (keep bs (map (matches c sel df) [0..<nrows df]))"
      by (simp only: keep_map)
  qed
  moreover have "filter_by c sel (select_rows bs df) = select_rows bs df"
    using True by (auto simp: filter_by_def column_select_rows split: option.splits)
  ultimately show ?thesis by simp
next
  case False
  then obtain vs where vs: "column c df = Some vs" and sel: "sel \<noteq> Str ''All''" by auto
  have len: "length vs = nrows df" using assms(1) vs by (rule wf_column_length)
  have "matches c sel df = (\<lambda>i. eq_cell (vs ! i) sel)"
    by (rule ext) (simp add: matches_def sel vs)
  then have "map (matches c sel df) [0..<nrows df] = map (\<lambda>i. eq_cell (vs ! i) sel) [0..<length vs]"
    by (simp only: len)
  also have "\<dots> = map (\<lambda>v. eq_cell v sel) vs"
    by (rule nth_equalityI) simp_all
  finally have "keep bs (map (matches c sel df) [0..<nrows df]) = map (\<lambda>v. eq_cell v sel) (keep bs vs)"
    by (simp only: keep_map)
  then show ?thesis
    using sel vs by (simp add: filter_by_def column_select_rows)
qed

lemma apply_filters_mask:
  assumes "wf_frame df"
  shows "apply_filters sel_festival sel_sentiment df =
           select_rows (map (\<lambda>i. matches ''Festival'' sel_festival df i \<and>
                                 matches ''Sentiment'' sel_sentiment df i) [0..<nrows df]) df"
proof -
  let ?f = "map (matches ''Festival'' sel_festival df) [0..<nrows df]"
  let ?s = "map (matches ''Sentiment'' sel_sentiment df) [0..<nrows df]"
  have "apply_filters sel_festival sel_sentiment df
          = filter_by ''Sentiment'' sel_sentiment (select_rows ?f df)"
    by (simp only: apply_filters_def filter_by_mask[OF assms])
  also have "\<dots> = select_rows (keep ?f ?s) (select_rows ?f df)"
    using assms by (intro filter_by_after_select) simp_all
  also have "\<dots> = select_rows (map2 (\<and>) ?f ?s) df"
    by (intro select_rows_twice) simp
  also have "map2 (\<and>) ?f ?s = map (\<lambda>i. matches ''Festival'' sel_festival df i \<and>
                                 matches ''Sentiment'' sel_sentiment df i) [0..<nrows df]"
    by (rule nth_equalityI) simp_all
  finally show ?thesis .
qed

section \<open>The claims about the aggregator\<close>

subsection \<open>Row filters\<close>

text \<open>
  Claim C8. On the normalized table of a well-formed raw table, the filters keep exactly
  the rows that match the festival selection and the sentiment selection, where a
  selection "All" or an absent column matches every row. Hence, for a festival value
  other than "All" (the page offers only values of the \<^verbatim>\<open>Festival\<close> column) and the
  sentiment selection "All", the total shown is the number of raw rows whose
  \<^verbatim>\<open>Festival\<close> equals that value.
\<close>

theorem filters_keep_matching_rows:
  assumes "wf_frame raw" and "process_data parse now g (Some raw) = (None, df)"
  shows "apply_filters sel_festival sel_sentiment df =
           select_rows (map (\<lambda>i. matches ''Festival'' sel_festival df i \<and>
                                 matches ''Sentiment'' sel_sentiment df i) [0..<nrows df]) df \<and>
         (\<forall>fs. sel_festival \<noteq> Str ''All'' \<and> column ''Festival'' raw = Some fs \<longrightarrow>
            total_tweets (render rnd top_n (apply_filters sel_festival (Str ''All'') df))
              = length (filter (\<lambda>v. eq_cell v sel_festival) fs))"
proof -
  have ok: "process_data_try parse now g (Some raw) = Inr df"
    using assms(2) by (simp add: process_data_ok)
  have wf: "wf_frame df" using assms(1) ok by (rule wf_process_data_try)
  have "total_tweets (render rnd top_n (apply_filters sel_festival (Str ''All'') df))
          = length (filter (\<lambda>v. eq_cell v sel_festival) fs)"
    if sel: "sel_festival \<noteq> Str ''All''" and fs: "column ''Festival'' raw = Some fs" for fs
  proof -
    have col: "column ''Festival'' df = Some fs"
      using passthrough_process_data_try[OF ok, of "''Festival''"] fs by (simp add: has_col_def)
    have len: "length (map (\<lambda>v. eq_cell v sel_festival) fs) = nrows df"
      using wf_column_length[OF wf col] by simp
    have "apply_filters sel_festival (Str ''All'') df
            = select_rows (map (\<lambda>v. eq_cell v sel_festival) fs) df"
      by (simp only: apply_filters_def filter_by_All) (simp add: filter_by_def sel col)
    then show ?thesis
      by (simp add: render_def nrows_select_rows[OF len] filter_map comp_def)
  qed
  then show ?thesis using apply_filters_mask[OF wf] by blast
qed

theorem filters_keep_matching_rows_witness:
  "wf_frame \<lparr>nrows = 3, cols = [(''Festival'', [Str ''Diwali'', Str ''Holi'', Str ''Diwali'']),
        (''Date'', [Stamp 0, Stamp 0, Stamp 0])]\<rparr> \<and>
   total_tweets (render (\<lambda>x. x) 10 (apply_filters (Str ''Diwali'') (Str ''All'')
      (snd (process_data (\<lambda>c. None) 0 (\<lambda>i. 0)
        (Some \<lparr>nrows = 3, cols = [(''Festival'', [Str ''Diwali'', Str ''Holi'', Str ''Diwali'']),
          (''Date'', [Stamp 0, Stamp 0, Stamp 0])]\<rparr>))))) = 2"
proof -
  let ?raw = "\<lparr>nrows = 3, cols = [(''Festival'', [Str ''Diwali'', Str ''Holi'', Str ''Diwali'']),
        (''Date'', [Stamp 0, Stamp 0, Stamp 0])]\<rparr> :: string dataframe"
  have wf: "wf_frame ?raw" by (simp add: wf_frame_def)
  have "fst (process_data (\<lambda>c. None) 0 (\<lambda>i. 0) (Some ?raw)) = None"
    by (simp add: process_data_succeeds process_data_try_fails column_def to_datetime_cell_def)
  then have ok: "process_data (\<lambda>c. None) 0 (\<lambda>i. 0) (Some ?raw) =
                   (None, snd (process_data (\<lambda>c. None) 0 (\<lambda>i. 0) (Some ?raw)))"
    by (metis prod.collapse)
  have fs: "column ''Festival'' ?raw = Some [Str ''Diwali'', Str ''Holi'', Str ''Diwali'']"
    by (simp add: column_def)
  from filters_keep_matching_rows[OF wf ok, where sel_festival = "Str ''Diwali''" and top_n = 10
         and sel_sentiment = "Str ''All''" and rnd = "\<lambda>x. x"]
  have "\<forall>fs. Str ''Diwali'' \<noteq> Str ''All'' \<and> column ''Festival'' ?raw = Some fs \<longrightarrow>
          total_tweets (render (\<lambda>x. x) 10 (apply_filters (Str ''Diwali'') (Str ''All'')
            (snd (process_data (\<lambda>c. None) 0 (\<lambda>i. 0) (Some ?raw)))))
          = length (filter (\<lambda>v. eq_cell v (Str ''Diwali'')) fs)"
    by (rule conjunct2)
  with fs have "total_tweets (render (\<lambda>x. x) 10 (apply_filters (Str ''Diwali'') (Str ''All'')
          (snd (process_data (\<lambda>c. None) 0 (\<lambda>i. 0) (Some ?raw)))))
        = length (filter (\<lambda>v. eq_cell v (Str ''Diwali'')) [Str ''Diwali'', Str ''Holi'', Str ''Diwali''])"
    by simp
  then show ?thesis using wf by (simp add: eq_cell_def)
qed

subsection \<open>The share of positive tweets\<close>







section \<open>Frequencies\<close>

lemma set_unique [simp]: "set (unique xs) = set xs"
  by (induction xs rule: unique.induct) auto

lemma distinct_unique [simp]: "distinct (unique xs)"
  by (induction xs rule: unique.induct) auto

lemma set_dropna: "set (dropna vs) = set vs - {NaN}"
  by (auto simp: dropna_def)

lemma count_dropna: "v \<noteq> NaN \<Longrightarrow> count_list (dropna vs) v = count_list vs v"
  by (induction vs) (auto simp: dropna_def)


lemma mset_by_count_desc: "mset (by_count_desc ps) = mset ps"
  by (simp add: by_count_desc_def)

lemma set_by_count_desc [simp]: "set (by_count_desc ps) = set ps"
  by (simp add: by_count_desc_def)

lemma length_by_count_desc [simp]: "length (by_count_desc ps) = length ps"
  by (simp add: by_count_desc_def)


lemma by_count_desc_idem: "by_count_desc (by_count_desc ps) = by_count_desc ps"
  unfolding by_count_desc_def by (rule sort_key_id_if_sorted) (rule sorted_sort_key)


lemma distinct_fst_by_count_desc:
  "distinct (map fst (by_count_desc ps)) = distinct (map fst ps)"
proof -
  have "mset (map fst (by_count_desc ps)) = mset (map fst ps)"
    by (simp add: mset_by_count_desc)
  then show ?thesis by (rule mset_eq_imp_distinct_iff)
qed



text \<open>The ranking \<^verbatim>\<open>value_counts().nlargest(n)\<close> is a prefix of \<^verbatim>\<open>value_counts()\<close>.\<close>

lemma nlargest_value_counts: "nlargest n (value_counts vs) = take n (value_counts vs)"
  by (simp add: nlargest_def value_counts_def Let_def by_count_desc_idem)

lemma distinct_value_counts: "distinct (map fst (value_counts vs))"
  by (simp add: value_counts_def Let_def distinct_fst_by_count_desc comp_def)

lemma set_value_counts:
  "set (value_counts vs) = (\<lambda>v. (v, count_list vs v)) ` (set vs - {NaN})"
  by (auto simp: value_counts_def Let_def set_dropna count_dropna)


lemma distinct_top_emojis: "distinct (top_emojis n vs)"
  by (simp add: top_emojis_def nlargest_value_counts distinct_value_counts flip: take_map)

lemma set_top_emojis: "set (top_emojis n vs) \<subseteq> set vs - {NaN}"
proof -
  have "set (take n (value_counts vs)) \<subseteq> set (value_counts vs)" by (rule set_take_subset)
  then show ?thesis
    by (auto simp: top_emojis_def nlargest_value_counts set_value_counts)
qed

section \<open>The indicator table\<close>

lemma update_labelled:
  "k \<in> set ks \<Longrightarrow> distinct ks \<Longrightarrow>
     AList.update k v (map (\<lambda>e. (e, G e)) ks) = map (\<lambda>e. (e, (G(k := v)) e)) ks"
  by (induction ks) auto

lemma fill_columns:
  assumes "set xs \<subseteq> set ks" and "distinct ks"
  shows "foldl (\<lambda>m e. set_col e (F e) m) \<lparr>nrows = n, cols = map (\<lambda>e. (e, G e)) ks\<rparr> xs
           = \<lparr>nrows = n, cols = map (\<lambda>e. (e, if e \<in> set xs then F e else G e)) ks\<rparr>"
  using assms
proof (induction xs arbitrary: G)
  case Nil
  then show ?case by simp
next
  case (Cons x xs)
  have "set_col x (F x) \<lparr>nrows = n, cols = map (\<lambda>e. (e, G e)) ks\<rparr>
          = \<lparr>nrows = n, cols = map (\<lambda>e. (e, (G(x := F x)) e)) ks\<rparr>"
    using Cons.prems by (simp add: set_col_def update_labelled)
  moreover have "map (\<lambda>e. (e, if e \<in> set xs then F e else (G(x := F x)) e)) ks
                   = map (\<lambda>e. (e, if e \<in> set (x # xs) then F e else G e)) ks"
    by (rule map_cong) auto
  ultimately show ?case using Cons.IH[of "G(x := F x)"] Cons.prems by simp
qed

lemma mat_df_cols:
  assumes "column ''Emoji'' df = Some vs"
  shows "mat_df top_n df =
           Some \<lparr>nrows = nrows df, cols = map (\<lambda>e. (e, indicator e vs)) (top_emojis top_n vs)\<rparr>"
  using assms fill_columns[of "top_emojis top_n vs" "top_emojis top_n vs" "\<lambda>e. indicator e vs"
                             "nrows df" "\<lambda>e. replicate (nrows df) (Num 0)"]
  by (simp add: mat_df_def zeros_frame_def Let_def distinct_top_emojis cong: map_cong)

lemma filter_eq_distinct: "distinct xs \<Longrightarrow> filter (\<lambda>e. x = e) xs = (if x \<in> set xs then [x] else [])"
  by (induction xs) auto

subsection \<open>One emoji per row\<close>

text \<open>
  Claim C10. The indicator table has one column per top emoji, the column of \<open>e\<close> holding
  1 in the rows whose emoji is \<open>e\<close> and 0 elsewhere. In every row the columns that hold
  a 1 are: the one of the row's emoji, when that emoji is among the top ones, and none
  otherwise. So no row has a 1 in two columns.
\<close>

theorem one_hot_rows:
  assumes "column ''Emoji'' df = Some vs" and "i < length vs"
  shows "\<exists>m. mat_df top_n df = Some m \<and>
              map fst (cols m) = top_emojis top_n vs \<and> distinct (top_emojis top_n vs) \<and>
              (\<forall>e \<in> set (top_emojis top_n vs). column e m = Some (indicator e vs)) \<and>
              ones_in_row m i = (if vs ! i \<in> set (top_emojis top_n vs) then [vs ! i] else []) \<and>
              length (ones_in_row m i) \<le> 1"
proof -
  let ?es = "top_emojis top_n vs"
  let ?m = "\<lparr>nrows = nrows df, cols = map (\<lambda>e. (e, indicator e vs)) ?es\<rparr>"
  have m: "mat_df top_n df = Some ?m" using assms(1) by (rule mat_df_cols)
  have labels: "map fst (cols ?m) = ?es" by (simp add: comp_def)
  have dist: "distinct ?es" by (rule distinct_top_emojis)
  have nonan: "NaN \<notin> set ?es" using set_top_emojis[of top_n vs] by auto
  have column: "column e ?m = Some (indicator e vs)" if "e \<in> set ?es" for e
    using that by (simp add: column_def map_of_map_restrict restrict_map_def)
  have "ones_in_row ?m i = filter (\<lambda>e. indicator e vs ! i = Num 1) ?es"
    by (simp add: ones_in_row_def filter_map comp_def)
  also have "\<dots> = filter (\<lambda>e. vs ! i = e) ?es"
    using assms(2) nonan by (intro filter_cong) (auto simp: indicator_def eq_cell_def)
  also have "\<dots> = (if vs ! i \<in> set ?es then [vs ! i] else [])"
    using dist by (rule filter_eq_distinct)
  finally have ones: "ones_in_row ?m i = (if vs ! i \<in> set ?es then [vs ! i] else [])" .
  then have "length (ones_in_row ?m i) \<le> 1" by simp
  with m labels dist column ones show ?thesis by blast
qed

theorem one_hot_rows_witness:
  "column ''Emoji'' \<lparr>nrows = 4, cols = [(''Emoji'', [Str ''a'', Str ''b'', NaN, Str ''a''])]\<rparr>
     = Some [Str ''a'', Str ''b'', NaN, Str ''a''] \<and>
   (\<exists>m. mat_df 1 \<lparr>nrows = 4, cols = [(''Emoji'', [Str ''a'', Str ''b'', NaN, Str ''a''])]\<rparr> = Some m \<and>
        ones_in_row m 0 = [Str ''a''] \<and> ones_in_row m 1 = [] \<and> ones_in_row m 2 = [])"
proof -
  let ?vs = "[Str ''a'', Str ''b'', NaN, Str ''a'']"
  let ?df = "\<lparr>nrows = 4, cols = [(''Emoji'', ?vs)]\<rparr> :: string dataframe"
  have c: "column ''Emoji'' ?df = Some ?vs" by (simp add: column_def)
  have t: "top_emojis 1 ?vs = [Str ''a'']"
    by (simp add: top_emojis_def nlargest_def value_counts_def by_count_desc_def dropna_def)
  from one_hot_rows[OF c, of 0 1] obtain m where
    m: "mat_df 1 ?df = Some m" and
    o0: "ones_in_row m 0 = (if ?vs ! 0 \<in> set (top_emojis 1 ?vs) then [?vs ! 0] else [])"
    by auto
  from one_hot_rows[OF c, of 1 1] m have
    o1: "ones_in_row m 1 = (if ?vs ! 1 \<in> set (top_emojis 1 ?vs) then [?vs ! 1] else [])"
    by auto
  from one_hot_rows[OF c, of 2 1] m have
    o2: "ones_in_row m 2 = (if ?vs ! 2 \<in> set (top_emojis 1 ?vs) then [?vs ! 2] else [])"
    by auto
  have "ones_in_row m 0 = [Str ''a'']" "ones_in_row m 1 = []" "ones_in_row m 2 = []"
    unfolding o0 o1 o2 t by simp_all
  with c m show ?thesis by blast
qed

subsection \<open>The emoji ranking\<close>




section \<open>The mode\<close>







lemma set_np_sort [simp]: "set (np_sort vs) = set vs"
  by (simp add: np_sort_def)

lemma np_sort_Nil_iff [simp]: "np_sort vs = [] \<longleftrightarrow> vs = []"
  by (metis set_np_sort set_empty)




subsection \<open>The top emotion and the top emoji\<close>




end
